theory Spec2Isabelle
  imports Complex_Main
begin

section \<open>Values, errors and tables\<close>

text \<open>
  The exceptions that the modelled code can raise. \<open>ApiError\<close> stands for whatever the
  provider client raises on a failed request.
\<close>

datatype error =
    KeyError string
  | AttributeError string
  | UnboundLocalError string
  | ValueError
  | OutOfBoundsDatetime
  | ApiError string

text \<open>
  A cell of a table or a value of a provider payload. \<open>Null\<close> is pandas' missing value
  (\<open>None\<close>, \<open>NaN\<close>, \<open>NaT\<close>), \<open>Num\<close> a number (floats are taken as reals), \<open>Stamp\<close> a
  timestamp in seconds since the epoch, \<open>Day\<close> a calendar date in days since the epoch.
\<close>

datatype val =
    Null
  | Num real
  | Str string
  | Flag bool
  | Strs "string list"
  | Nums "real list"
  | Stamp int
  | Day int

type_synonym pydict = "(string \<times> val) list"

type_synonym row = "string \<Rightarrow> val"

record dataframe =
  columns :: "string list"
  rows :: "row list"

section \<open>Text cleaning (\<open>CafeProcessor.clean_review_text\<close>)\<close>

text \<open>
  A Python string is modelled as a list of 8-bit characters read as the code points
  \<open>U+0000\<close> to \<open>U+00FF\<close>. \<open>isspace\<close> is the set of those code points that
  \<open>str.split()\<close> treats as whitespace; \<open>lower_char\<close> is \<open>str.lower()\<close> on one of
  them.
\<close>

definition isspace :: "char \<Rightarrow> bool" where
  "isspace c = ((of_char c :: nat) \<in> set [9, 10, 11, 12, 13, 28, 29, 30, 31, 32, 133, 160])"

definition lower_char :: "char \<Rightarrow> char" where
  "lower_char c =
     (let n = (of_char c :: nat) in
      if (65 \<le> n \<and> n \<le> 90) \<or> (192 \<le> n \<and> n \<le> 222 \<and> n \<noteq> 215)
      then char_of (n + 32) else c)"

definition lower :: "string \<Rightarrow> string" where
  "lower s = map lower_char s"

text \<open>
  \<open>text.split()\<close>: the maximal runs of non-whitespace characters, in order.
  \<open>split_from w s\<close> scans \<open>s\<close> with the word \<open>w\<close> read so far.
\<close>

fun split_from :: "string \<Rightarrow> string \<Rightarrow> string list" where
  "split_from w [] = (if w = [] then [] else [w])"
| "split_from w (c # cs) =
     (if isspace c then (if w = [] then split_from [] cs else w # split_from [] cs)
      else split_from (w @ [c]) cs)"

definition split :: "string \<Rightarrow> string list" where
  "split s = split_from [] s"

text \<open>\<open>' '.join(words)\<close>.\<close>

fun join :: "string list \<Rightarrow> string" where
  "join [] = []"
| "join [w] = w"
| "join (w # v # ws) = w @ CHR '' '' # join (v # ws)"

text \<open>
  \<open>clean_review_text\<close>; the argument is \<open>None\<close> where \<open>pd.isna(text)\<close> holds.
\<close>

definition clean_review_text :: "string option \<Rightarrow> string" where
  "clean_review_text text =
     (case text of
        None \<Rightarrow> []
      | Some t \<Rightarrow> if t = [] then [] else join (split (lower t)))"

section \<open>Table operations used by the pipeline\<close>

text \<open>\<open>df[c]\<close>: the values of a column, \<open>KeyError\<close> when the table has no such column.\<close>

definition getcol :: "dataframe \<Rightarrow> string \<Rightarrow> error + val list" where
  "getcol df c =
     (if c \<in> set (columns df) then Inr (map (\<lambda>r. r c) (rows df)) else Inl (KeyError c))"

text \<open>\<open>df[c] = vs\<close> for a list of values aligned with the rows.\<close>

definition setcol :: "dataframe \<Rightarrow> string \<Rightarrow> val list \<Rightarrow> dataframe" where
  "setcol df c vs =
     \<lparr>columns = (if c \<in> set (columns df) then columns df else columns df @ [c]),
      rows = map (\<lambda>(r, v). r(c := v)) (zip (rows df) vs)\<rparr>"

text \<open>
  \<open>df.drop_duplicates(subset=[c])\<close> with the default \<open>keep='first'\<close>: the rows are
  scanned in order and a row is kept when its key has not been seen before.
\<close>

fun first_by :: "('a \<Rightarrow> 'k) \<Rightarrow> 'k list \<Rightarrow> 'a list \<Rightarrow> 'a list" where
  "first_by key seen [] = []"
| "first_by key seen (r # rs) =
     (if key r \<in> set seen then first_by key seen rs
      else r # first_by key (key r # seen) rs)"

definition drop_duplicates :: "string \<Rightarrow> dataframe \<Rightarrow> error + dataframe" where
  "drop_duplicates c df =
     (if c \<in> set (columns df)
      then Inr (df\<lparr>rows := first_by (\<lambda>r. r c) [] (rows df)\<rparr>)
      else Inl (KeyError c))"

section \<open>Timestamps\<close>

text \<open>
  \<open>pd.to_datetime(x, unit='s')\<close> on one value: a missing value stays missing, a number of
  seconds becomes a timestamp (kept to the whole second) when it fits pandas'
  nanosecond range, anything that is neither raises.
\<close>

definition to_datetime :: "val \<Rightarrow> error + val" where
  "to_datetime v =
     (case v of
        Null \<Rightarrow> Inr Null
      | Num x \<Rightarrow>
          if - 9223372036854775807 \<le> x * 1000000000 \<and> x * 1000000000 \<le> 9223372036854775807
          then Inr (Stamp \<lfloor>x\<rfloor>) else Inl OutOfBoundsDatetime
      | Stamp t \<Rightarrow> Inr (Stamp t)
      | _ \<Rightarrow> Inl ValueError)"

fun to_datetime_all :: "val list \<Rightarrow> error + val list" where
  "to_datetime_all [] = Inr []"
| "to_datetime_all (v # vs) =
     (case to_datetime v of
        Inl e \<Rightarrow> Inl e
      | Inr t \<Rightarrow> (case to_datetime_all vs of Inl e \<Rightarrow> Inl e | Inr ts \<Rightarrow> Inr (t # ts)))"

text \<open>
  The proleptic Gregorian calendar: year and month of the day \<open>d\<close> days after
  1970-01-01, and its day of the week with Monday as 0.
\<close>

definition civil :: "int \<Rightarrow> int \<times> int" where
  "civil d =
     (let z = d + 719468;
          era = z div 146097;
          doe = z mod 146097;
          yoe = (doe - doe div 1460 + doe div 36524 - doe div 146096) div 365;
          doy = doe - (365 * yoe + yoe div 4 - yoe div 100);
          mp = (5 * doy + 2) div 153;
          m = (if mp < 10 then mp + 3 else mp - 9)
      in (yoe + era * 400 + (if m \<le> 2 then 1 else 0), m))"

definition dt_year :: "val \<Rightarrow> val" where
  "dt_year v = (case v of Stamp t \<Rightarrow> Num (of_int (fst (civil (t div 86400)))) | _ \<Rightarrow> Null)"

definition dt_month :: "val \<Rightarrow> val" where
  "dt_month v = (case v of Stamp t \<Rightarrow> Num (of_int (snd (civil (t div 86400)))) | _ \<Rightarrow> Null)"

definition dt_dayofweek :: "val \<Rightarrow> val" where
  "dt_dayofweek v = (case v of Stamp t \<Rightarrow> Num (of_int ((t div 86400 + 3) mod 7)) | _ \<Rightarrow> Null)"

section \<open>Review cleaning (\<open>CafeProcessor.clean_review_df\<close>)\<close>

text \<open>
  \<open>df['text'].apply(self.clean_review_text)\<close>: a value that is neither missing nor a
  string has no \<open>lower\<close> method.
\<close>

fun apply_clean :: "val list \<Rightarrow> error + string list" where
  "apply_clean [] = Inr []"
| "apply_clean (v # vs) =
     (case (case v of
              Null \<Rightarrow> Inr (clean_review_text None)
            | Str t \<Rightarrow> Inr (clean_review_text (Some t))
            | _ \<Rightarrow> Inl (AttributeError ''lower'')) of
        Inl e \<Rightarrow> Inl e
      | Inr c \<Rightarrow> (case apply_clean vs of Inl e \<Rightarrow> Inl e | Inr cs \<Rightarrow> Inr (c # cs)))"

definition clean_review_df :: "dataframe \<Rightarrow> error + dataframe" where
  "clean_review_df reviews_df =
     (case drop_duplicates ''place_id'' reviews_df of
        Inl e \<Rightarrow> Inl e
      | Inr df \<Rightarrow>
     (case getcol df ''text'' of
        Inl e \<Rightarrow> Inl e
      | Inr texts \<Rightarrow>
     (case apply_clean texts of
        Inl e \<Rightarrow> Inl e
      | Inr cleaned \<Rightarrow>
     (let df = setcol df ''text_clean'' (map Str cleaned);
          df = setcol df ''text_length'' (map (\<lambda>c. Num (of_nat (length c))) cleaned);
          df = setcol df ''word_count'' (map (\<lambda>c. Num (of_nat (length (split c)))) cleaned)
      in
     (case getcol df ''time'' of
        Inl e \<Rightarrow> Inl e
      | Inr secs \<Rightarrow>
     (case to_datetime_all secs of
        Inl e \<Rightarrow> Inl e
      | Inr stamps \<Rightarrow>
     (let df = setcol df ''review_date'' stamps;
          df = setcol df ''year'' (map dt_year stamps);
          df = setcol df ''month'' (map dt_month stamps);
          df = setcol df ''day_of_week'' (map dt_dayofweek stamps)
      in Inr df)))))))"

section \<open>Place cleaning (\<open>CafeProcessor.clean_cafe_df\<close>)\<close>

text \<open>
  \<open>df[cols] = df[cols].fillna(v)\<close>: selecting a column that the table does not have
  raises \<open>KeyError\<close>.
\<close>

definition fillna :: "string list \<Rightarrow> val \<Rightarrow> dataframe \<Rightarrow> error + dataframe" where
  "fillna cols v df =
     (case filter (\<lambda>c. c \<notin> set (columns df)) cols of
        c # _ \<Rightarrow> Inl (KeyError c)
      | [] \<Rightarrow>
          Inr (df\<lparr>rows := map (\<lambda>r c. if c \<in> set cols \<and> r c = Null then v else r c) (rows df)\<rparr>))"

text \<open>
  \<open>pd.qcut(x, q, labels)\<close> with a list of quantiles. The missing values of \<open>x\<close> are left
  out of the quantiles and get no label; a value that is not a number raises. The bin
  edges are the quantiles of \<open>x\<close> by linear interpolation, each quantile has to lie in
  \<open>[0, 1]\<close>, the edges have to be distinct (\<open>duplicates='raise'\<close>), and there has to be
  one label per bin. A value gets the label of the bin \<open>(edge i, edge (i+1)]\<close> it lies in,
  the lowest edge included.
\<close>

fun numbers :: "val list \<Rightarrow> error + real list" where
  "numbers [] = Inr []"
| "numbers (v # vs) =
     (case numbers vs of
        Inl e \<Rightarrow> Inl e
      | Inr ns \<Rightarrow> (case v of Null \<Rightarrow> Inr ns | Num x \<Rightarrow> Inr (x # ns) | _ \<Rightarrow> Inl ValueError))"

definition quantile :: "real list \<Rightarrow> real \<Rightarrow> real" where
  "quantile vs p =
     (let h = p * of_nat (length vs - 1); lo = nat \<lfloor>h\<rfloor>; hi = nat \<lceil>h\<rceil>
      in vs ! lo + (h - of_nat lo) * (vs ! hi - vs ! lo))"

definition searchsorted_left :: "real list \<Rightarrow> real \<Rightarrow> nat" where
  "searchsorted_left bins x = length (takeWhile (\<lambda>b. b < x) bins)"

definition bin_label :: "real list \<Rightarrow> val list \<Rightarrow> val \<Rightarrow> val" where
  "bin_label bins labels v =
     (case v of
        Num x \<Rightarrow>
          (let i = (if x = hd bins then 1 else searchsorted_left bins x)
           in if i = 0 \<or> i = length bins then Null else labels ! (i - 1))
      | _ \<Rightarrow> Null)"

definition qcut :: "val list \<Rightarrow> real list \<Rightarrow> val list \<Rightarrow> error + val list" where
  "qcut x q labels =
     (case numbers x of
        Inl e \<Rightarrow> Inl e
      | Inr ns \<Rightarrow>
          if \<not> list_all (\<lambda>p. 0 \<le> p \<and> p \<le> 1) q then Inl ValueError
          else if ns = [] then Inl ValueError
          else
            (let bins = map (quantile (sort ns)) q
             in if \<not> distinct bins \<and> length bins \<noteq> 2 then Inl ValueError
                else if length labels \<noteq> length bins - 1 then Inl ValueError
                else Inr (map (bin_label bins labels) x)))"

text \<open>
  The source writes the quantiles as \<open>[0, 0,25, 5, 0,75, 1]\<close>, which Python reads as the
  seven numbers below.
\<close>

definition clean_cafe_df :: "dataframe \<Rightarrow> error + dataframe" where
  "clean_cafe_df cafes_df =
     (case drop_duplicates ''place_id'' cafes_df of
        Inl e \<Rightarrow> Inl e
      | Inr df \<Rightarrow>
     (case fillna [''price_level'', ''rating'', ''total_ratings''] (Num (- 1)) df of
        Inl e \<Rightarrow> Inl e
      | Inr df \<Rightarrow>
     (case getcol df ''total_ratings'' of
        Inl e \<Rightarrow> Inl e
      | Inr total_ratings \<Rightarrow>
     (case qcut total_ratings [0, 0, 25, 5, 0, 75, 1] [Num 1, Num 2, Num 3, Num 4] of
        Inl e \<Rightarrow> Inl e
      | Inr tiers \<Rightarrow> Inr (setcol df ''ratings_pct'' tiers)))))"

section \<open>Aggregation (\<open>CafeProcessor.cafe_reviews_df\<close>)\<close>

text \<open>
  The aggregates of a group: mean and sample standard deviation of the numbers in a
  column (missing when there are too few), and the count of its values that are not
  missing.
\<close>

definition num_values :: "val list \<Rightarrow> real list" where
  "num_values vs = concat (map (\<lambda>v. case v of Num x \<Rightarrow> [x] | _ \<Rightarrow> []) vs)"

definition mean :: "val list \<Rightarrow> val" where
  "mean vs =
     (let xs = num_values vs
      in if xs = [] then Null else Num (sum_list xs / of_nat (length xs)))"

definition std :: "val list \<Rightarrow> val" where
  "std vs =
     (let xs = num_values vs; m = sum_list xs / of_nat (length xs)
      in if length xs < 2 then Null
         else Num (sqrt (sum_list (map (\<lambda>x. (x - m)\<^sup>2) xs) / of_nat (length xs - 1))))"

definition count_values :: "val list \<Rightarrow> val" where
  "count_values vs = Num (of_nat (length (filter (\<lambda>v. v \<noteq> Null) vs)))"

text \<open>
  \<open>reviews_df.groupby('place_id').agg({'rating': ['mean', 'std', 'count'],
  'text_length': 'mean', 'word_count': 'mean'})\<close>: one row per place_id that is not
  missing, here in the order of first appearance, the key kept as the column
  \<open>place_id\<close> and the two-level column labels flattened.
\<close>

definition groupby_agg :: "dataframe \<Rightarrow> error + dataframe" where
  "groupby_agg df =
     (case filter (\<lambda>c. c \<notin> set (columns df))
             [''place_id'', ''rating'', ''text_length'', ''word_count''] of
        c # _ \<Rightarrow> Inl (KeyError c)
      | [] \<Rightarrow>
          Inr \<lparr>columns = [''place_id'', ''rating_mean'', ''rating_std'', ''rating_count'',
                  ''text_length_mean'', ''word_count_mean''],
               rows =
                 map (\<lambda>k. let g = filter (\<lambda>r. r ''place_id'' = k) (rows df)
                          in (\<lambda>_. Null)
                             (''place_id'' := k,
                              ''rating_mean'' := mean (map (\<lambda>r. r ''rating'') g),
                              ''rating_std'' := std (map (\<lambda>r. r ''rating'') g),
                              ''rating_count'' := count_values (map (\<lambda>r. r ''rating'') g),
                              ''text_length_mean'' := mean (map (\<lambda>r. r ''text_length'') g),
                              ''word_count_mean'' := mean (map (\<lambda>r. r ''word_count'') g)))
                     (first_by (\<lambda>k. k) []
                        (filter (\<lambda>k. k \<noteq> Null) (map (\<lambda>r. r ''place_id'') (rows df))))\<rparr>)"

text \<open>
  A pandas \<open>Series\<close>: labelled values, with an optional name of its own and of its index.
  \<open>DataFrame.count(axis)\<close> returns an unnamed one: per column for axis 0 (labelled by
  the column names), per row for axis 1 (labelled by the group key). A table has no
  other axis.
\<close>

record series =
  series_name :: "string option"
  index_name :: "string option"
  labels_of :: "val list"
  values_of :: "val list"

definition df_count :: "int \<Rightarrow> dataframe \<Rightarrow> error + series" where
  "df_count axis df =
     (if axis = 0 then
        Inr \<lparr>series_name = None, index_name = None,
             labels_of = map Str (remove1 ''place_id'' (columns df)),
             values_of = map (\<lambda>c. count_values (map (\<lambda>r. r c) (rows df)))
                        (remove1 ''place_id'' (columns df))\<rparr>
      else if axis = 1 then
        Inr \<lparr>series_name = None, index_name = Some ''place_id'',
             labels_of = map (\<lambda>r. r ''place_id'') (rows df),
             values_of = map (\<lambda>r. count_values (map r (remove1 ''place_id'' (columns df))))
                        (rows df)\<rparr>
      else Inl ValueError)"

text \<open>
  \<open>cafes_df.merge(s, on='place_id', how='left')\<close> for a series \<open>s\<close>: a series without a
  name cannot be merged; a named one is joined on its index, every row of the left
  table kept.
\<close>

definition merge_left :: "dataframe \<Rightarrow> series \<Rightarrow> error + dataframe" where
  "merge_left df s =
     (case series_name s of
        None \<Rightarrow> Inl ValueError
      | Some n \<Rightarrow>
          if ''place_id'' \<in> set (columns df) \<and> index_name s = Some ''place_id'' then
            Inr \<lparr>columns = columns df @ [n],
                 rows = concat (map (\<lambda>r.
                          case filter (\<lambda>(k, v). k = r ''place_id'') (zip (labels_of s) (values_of s)) of
                            [] \<Rightarrow> [r(n := Null)]
                          | kvs \<Rightarrow> map (\<lambda>(k, v). r(n := v)) kvs) (rows df))\<rparr>
          else Inl (KeyError ''place_id''))"

definition cafe_reviews_df :: "dataframe \<Rightarrow> dataframe \<Rightarrow> error + dataframe" where
  "cafe_reviews_df cafes_df reviews_df =
     (case groupby_agg reviews_df of
        Inl e \<Rightarrow> Inl e
      | Inr stats \<Rightarrow>
     (case df_count 2 stats of
        Inl e \<Rightarrow> Inl e
      | Inr review_stats \<Rightarrow> merge_left cafes_df review_stats))"

section \<open>Place collection (\<open>CafeQuery.collect_cafes\<close>)\<close>

text \<open>\<open>d[k]\<close> on a dictionary: \<open>KeyError\<close> when the key is absent.\<close>

definition dict_get :: "pydict \<Rightarrow> string \<Rightarrow> error + val" where
  "dict_get d k = (case map_of d k of None \<Rightarrow> Inl (KeyError k) | Some v \<Rightarrow> Inr v)"

text \<open>
  A nearby-search response: the key \<open>results\<close> and the key \<open>next_page_token\<close>, each of
  which may be absent. The provider is the sequence of its answers: \<open>api n\<close> is what the
  call number \<open>n\<close> (from 0) returns or raises.
\<close>

record response =
  results :: "pydict list option"
  next_page_token :: "string option"

type_synonym places_api = "nat \<Rightarrow> error + response"

text \<open>
  The \<open>while 'next_page_token' in response\<close> loop. \<open>n\<close> counts the requests issued so
  far and is returned with the outcome; \<open>None\<close> is a loop that never ends.
\<close>

partial_function (option) page_loop ::
  "places_api \<Rightarrow> nat \<Rightarrow> response \<Rightarrow> pydict list \<Rightarrow> (nat \<times> (error + pydict list)) option"
where
  "page_loop api n resp all_cafes =
     (case next_page_token resp of
        None \<Rightarrow> Some (n, Inr all_cafes)
      | Some token \<Rightarrow>
          (case api n of
             Inl e \<Rightarrow> Some (Suc n, Inl e)
           | Inr resp' \<Rightarrow>
               (case results resp' of
                  None \<Rightarrow> Some (Suc n, Inl (KeyError ''results''))
                | Some rs \<Rightarrow> page_loop api (Suc n) resp' (all_cafes @ rs))))"

definition collect_pages ::
  "places_api \<Rightarrow> pydict \<Rightarrow> (nat \<times> (error + pydict list)) option"
where
  "collect_pages api neighborhood =
     (case dict_get neighborhood ''center'' of
        Inl e \<Rightarrow> Some (0, Inl e)
      | Inr _ \<Rightarrow>
     (case dict_get neighborhood ''radius'' of
        Inl e \<Rightarrow> Some (0, Inl e)
      | Inr _ \<Rightarrow>
     (case api 0 of
        Inl e \<Rightarrow> Some (1, Inl e)
      | Inr resp \<Rightarrow>
          page_loop api 1 resp (case results resp of None \<Rightarrow> [] | Some rs \<Rightarrow> rs))))"

text \<open>
  \<open>pd.DataFrame(dicts)\<close>: the columns are the keys in the order in which they first
  appear, a key that a dictionary lacks gives a missing value.
\<close>

definition DataFrame :: "pydict list \<Rightarrow> dataframe" where
  "DataFrame dicts =
     \<lparr>columns = first_by (\<lambda>k. k) [] (concat (map (map fst) dicts)),
      rows = map (\<lambda>d k. case map_of d k of None \<Rightarrow> Null | Some v \<Rightarrow> v) dicts\<rparr>"

definition keep_cols :: "string list" where
  "keep_cols = [''name'', ''place_id'', ''rating'', ''user_ratings_total'', ''price_level'',
                ''types'', ''business_status'', ''permanently_closed'']"

definition select_cols :: "string list \<Rightarrow> dataframe \<Rightarrow> dataframe" where
  "select_cols cols df =
     \<lparr>columns = cols, rows = map (\<lambda>r c. if c \<in> set cols then r c else Null) (rows df)\<rparr>"

definition collect_cafes :: "places_api \<Rightarrow> pydict \<Rightarrow> (error + dataframe) option" where
  "collect_cafes api neighborhood =
     (case collect_pages api neighborhood of
        None \<Rightarrow> None
      | Some (n, Inl e) \<Rightarrow> Some (Inl e)
      | Some (n, Inr all_cafes) \<Rightarrow>
          Some (if all_cafes \<noteq> [] then
                  (let df = DataFrame all_cafes;
                       df = select_cols (filter (\<lambda>c. c \<in> set (columns df)) keep_cols) df
                   in case dict_get neighborhood ''neighborhood_name'' of
                        Inl e \<Rightarrow> Inl e
                      | Inr nm \<Rightarrow>
                          (let df = setcol df ''neighborhood'' (map (\<lambda>_. nm) (rows df))
                           in case dict_get neighborhood ''region'' of
                                Inl e \<Rightarrow> Inl e
                              | Inr rg \<Rightarrow> Inr (setcol df ''region'' (map (\<lambda>_. rg) (rows df)))))
                else Inr \<lparr>columns = [], rows = []\<rparr>))"

section \<open>Combining the areas (\<open>collect_all_data\<close>, \<open>CafeQuery.collect_all\<close>)\<close>

text \<open>
  \<open>pd.concat(dfs, ignore_index=True)\<close>: the rows of the tables in order, over the union
  of their columns; there has to be at least one table.
\<close>

definition pd_concat :: "dataframe list \<Rightarrow> error + dataframe" where
  "pd_concat dfs =
     (if dfs = [] then Inl ValueError
      else Inr \<lparr>columns = first_by (\<lambda>c. c) [] (concat (map columns dfs)),
                rows = concat (map (\<lambda>df. map (\<lambda>r c. if c \<in> set (columns df) then r c else Null)
                                            (rows df)) dfs)\<rparr>)"

text \<open>
  The end of \<open>collect_all_data\<close>: the tables of the areas are concatenated in collection
  order and the duplicates of a place_id dropped.
\<close>

definition final_cafes :: "dataframe list \<Rightarrow> error + dataframe" where
  "final_cafes all_cafes_dfs =
     (case pd_concat all_cafes_dfs of
        Inl e \<Rightarrow> Inl e
      | Inr df \<Rightarrow> drop_duplicates ''place_id'' df)"

text \<open>
  The attributes that \<open>CafeQuery\<close> and its instances have. \<open>collect_all\<close> looks up
  \<open>self.collect_neighborhood\<close>; \<open>call a nb\<close> stands for calling the attribute \<open>a\<close>, when
  there is one, on a neighborhood.
\<close>

definition CafeQuery_attributes :: "string list" where
  "CafeQuery_attributes =
     [''gmaps'', ''neighborhoods'', ''collect_cafes'', ''collect_all'', ''collect_reviews'']"

fun collect_all_loop ::
  "(string \<Rightarrow> pydict \<Rightarrow> error + dataframe) \<Rightarrow> pydict list \<Rightarrow> dataframe list
   \<Rightarrow> error + dataframe list"
where
  "collect_all_loop call [] dfs = Inr dfs"
| "collect_all_loop call (neighborhood # rest) dfs =
     (case dict_get neighborhood ''name'' of
        Inl e \<Rightarrow> Inl e
      | Inr _ \<Rightarrow>
          if ''collect_neighborhood'' \<in> set CafeQuery_attributes then
            (case call ''collect_neighborhood'' neighborhood of
               Inl e \<Rightarrow> Inl e
             | Inr df \<Rightarrow> collect_all_loop call rest (dfs @ [df]))
          else Inl (AttributeError ''collect_neighborhood''))"

definition collect_all ::
  "(string \<Rightarrow> pydict \<Rightarrow> error + dataframe) \<Rightarrow> pydict list \<Rightarrow> error + dataframe"
where
  "collect_all call neighborhoods =
     (case collect_all_loop call neighborhoods [] of
        Inl e \<Rightarrow> Inl e
      | Inr dfs \<Rightarrow> pd_concat dfs)"

section \<open>Review collection (\<open>CafeQuery.collect_reviews\<close>)\<close>

text \<open>
  A place-detail response has the key \<open>result\<close> (or lacks it), whose value may have a
  \<open>name\<close> and a list of \<open>reviews\<close>. \<open>api place_id\<close> is what the detail request for a
  place returns or raises.
\<close>

record place_result =
  name :: "string option"
  reviews :: "pydict list option"

record place_response =
  result :: "place_result option"

type_synonym place_api = "string \<Rightarrow> error + place_response"

text \<open>Python's truth value of \<open>d.get(k)\<close>.\<close>

definition truthy :: "val option \<Rightarrow> bool" where
  "truthy v =
     (case v of
        None \<Rightarrow> False
      | Some Null \<Rightarrow> False
      | Some (Num x) \<Rightarrow> x \<noteq> 0
      | Some (Str t) \<Rightarrow> t \<noteq> []
      | Some (Flag b) \<Rightarrow> b
      | Some (Strs ts) \<Rightarrow> ts \<noteq> []
      | Some (Nums xs) \<Rightarrow> xs \<noteq> []
      | Some _ \<Rightarrow> True)"

text \<open>\<open>url.split('/')[-1]\<close>: what follows the last slash.\<close>

definition last_segment :: "string \<Rightarrow> string" where
  "last_segment url = rev (takeWhile (\<lambda>c. c \<noteq> CHR ''/'') (rev url))"

text \<open>
  The body of the loop over the reviews of one place: the row built from a review, or
  the exception raised on the way.
\<close>

definition review_data :: "string \<Rightarrow> string \<Rightarrow> pydict \<Rightarrow> error + row" where
  "review_data place_id place_name review =
     (case (case map_of review ''time'' of
              None \<Rightarrow> Inr Null
            | Some v \<Rightarrow>
                if truthy (Some v) then
                  (case to_datetime v of
                     Inl e \<Rightarrow> Inl e
                   | Inr (Stamp t) \<Rightarrow> Inr (Day (t div 86400))
                   | Inr d \<Rightarrow> Inr d)
                else Inr Null) of
        Inl e \<Rightarrow> Inl e
      | Inr review_date \<Rightarrow>
     (case (case map_of review ''author_url'' of
              None \<Rightarrow> Inr Null
            | Some (Str url) \<Rightarrow> Inr (if url \<noteq> [] then Str (last_segment url) else Null)
            | Some v \<Rightarrow> if truthy (Some v) then Inl (AttributeError ''split'') else Inr Null) of
        Inl e \<Rightarrow> Inl e
      | Inr author_id \<Rightarrow>
          Inr ((\<lambda>_. Null)
               (''place_id'' := Str place_id,
                ''place_name'' := Str place_name,
                ''author_id'' := author_id,
                ''rating'' := (case map_of review ''rating'' of None \<Rightarrow> Null | Some v \<Rightarrow> v),
                ''text'' := (case map_of review ''text'' of None \<Rightarrow> Str [] | Some v \<Rightarrow> v),
                ''review_date'' := review_date,
                ''relative_time_description'' :=
                  (case map_of review ''relative_time_description'' of
                     None \<Rightarrow> Null | Some v \<Rightarrow> v)))))"

fun review_rows ::
  "string \<Rightarrow> string \<Rightarrow> pydict list \<Rightarrow> row list \<Rightarrow> error option \<times> row list"
where
  "review_rows place_id place_name [] all_reviews = (None, all_reviews)"
| "review_rows place_id place_name (review # rest) all_reviews =
     (case review_data place_id place_name review of
        Inl e \<Rightarrow> (Some e, all_reviews)
      | Inr row \<Rightarrow> review_rows place_id place_name rest (all_reviews @ [row]))"

text \<open>
  The \<open>try\<close> block for one place. The state is the local variable \<open>place_name\<close>
  (\<open>None\<close> while it has not been assigned) and the rows collected so far; the first
  component of the result is the exception that left the block, if any.
\<close>

definition try_place ::
  "place_api \<Rightarrow> string \<Rightarrow> string option \<Rightarrow> row list
   \<Rightarrow> error option \<times> string option \<times> row list"
where
  "try_place api place_id place_name all_reviews =
     (case api place_id of
        Inl e \<Rightarrow> (Some e, place_name, all_reviews)
      | Inr resp \<Rightarrow>
          (case result resp of
             None \<Rightarrow> (Some (KeyError ''result''), place_name, all_reviews)
           | Some res \<Rightarrow>
               (let pn = (case name res of None \<Rightarrow> ''Unknown'' | Some nm \<Rightarrow> nm);
                    (exc, all_reviews) =
                       review_rows place_id pn
                         (case reviews res of None \<Rightarrow> [] | Some rs \<Rightarrow> rs) all_reviews
                in (exc, Some pn, all_reviews))))"

text \<open>
  The loop over the places. The \<open>except\<close> block formats a message with \<open>place_name\<close>
  before it continues: reading the variable while it is unassigned raises
  \<open>UnboundLocalError\<close>, which leaves the function.
\<close>

fun collect_reviews_loop ::
  "place_api \<Rightarrow> string list \<Rightarrow> string option \<Rightarrow> row list \<Rightarrow> error + row list"
where
  "collect_reviews_loop api [] place_name all_reviews = Inr all_reviews"
| "collect_reviews_loop api (place_id # rest) place_name all_reviews =
     (case try_place api place_id place_name all_reviews of
        (None, place_name, all_reviews) \<Rightarrow>
          collect_reviews_loop api rest place_name all_reviews
      | (Some e, None, all_reviews) \<Rightarrow> Inl (UnboundLocalError ''place_name'')
      | (Some e, Some pn, all_reviews) \<Rightarrow>
          collect_reviews_loop api rest (Some pn) all_reviews)"

definition review_columns :: "string list" where
  "review_columns = [''place_id'', ''place_name'', ''author_id'', ''rating'', ''text'',
                     ''review_date'', ''relative_time_description'']"

definition collect_reviews :: "place_api \<Rightarrow> string list \<Rightarrow> error + dataframe" where
  "collect_reviews api place_ids =
     (case collect_reviews_loop api place_ids None [] of
        Inl e \<Rightarrow> Inl e
      | Inr all_reviews \<Rightarrow>
          Inr \<lparr>columns = (if all_reviews = [] then [] else review_columns),
               rows = all_reviews\<rparr>)"

section \<open>Auxiliary notions and example inputs\<close>

text \<open>A word, as \<open>split\<close> returns it: not empty and free of whitespace.\<close>

definition word :: "string \<Rightarrow> bool" where
  "word w = (w \<noteq> [] \<and> list_all (\<lambda>c. \<not> isspace c) w)"

text \<open>The columns that \<open>clean_review_df\<close> writes.\<close>

definition derived_columns :: "string list" where
  "derived_columns = [''text_clean'', ''text_length'', ''word_count'', ''review_date'',
                      ''year'', ''month'', ''day_of_week'']"

text \<open>The review text of the end-to-end scenario, with its newline.\<close>

definition sample_text :: string where
  "sample_text = ''  Great Coffee!!  '' @ [CHR 0x0A] @ '' Nice ''"

text \<open>A raw reviews table with a \<open>time\<close> column, holding that review.\<close>

definition sample_reviews :: dataframe where
  "sample_reviews =
     \<lparr>columns = [''place_id'', ''text'', ''time''],
      rows = [(\<lambda>_. Null)(''place_id'' := Str ''p1'', ''text'' := Str sample_text,
                           ''time'' := Num 1704067200)]\<rparr>"

text \<open>
  Two areas whose radii overlap: the place \<open>p2\<close> is found from both, first from
  Tiong Bahru.
\<close>

definition area_row :: "string \<Rightarrow> string \<Rightarrow> string \<Rightarrow> row" where
  "area_row pid nb rg =
     (\<lambda>_. Null)(''place_id'' := Str pid, ''neighborhood'' := Str nb, ''region'' := Str rg)"

definition area_a :: dataframe where
  "area_a =
     \<lparr>columns = [''place_id'', ''neighborhood'', ''region''],
      rows = [area_row ''p1'' ''Tiong Bahru'' ''Central'',
              area_row ''p2'' ''Tiong Bahru'' ''Central'']\<rparr>"

definition area_b :: dataframe where
  "area_b =
     \<lparr>columns = [''place_id'', ''neighborhood'', ''region''],
      rows = [area_row ''p2'' ''Katong'' ''East'',
              area_row ''p3'' ''Katong'' ''East'']\<rparr>"

text \<open>Two reviews of one place by two authors, in a raw table with a \<open>time\<close> column.\<close>

definition two_reviews :: dataframe where
  "two_reviews =
     \<lparr>columns = [''place_id'', ''author_id'', ''text'', ''time''],
      rows = [(\<lambda>_. Null)(''place_id'' := Str ''p1'', ''author_id'' := Str ''101'',
                            ''text'' := Str ''Good'', ''time'' := Num 86400),
              (\<lambda>_. Null)(''place_id'' := Str ''p1'', ''author_id'' := Str ''202'',
                            ''text'' := Str ''Bad'', ''time'' := Null)]\<rparr>"

text \<open>
  A place-detail provider that answers every request with one review, and one whose
  request for the place \<open>p1\<close> fails.
\<close>

definition one_review_api :: place_api where
  "one_review_api place_id =
     Inr \<lparr>result = Some \<lparr>name = Some ''Cafe'',
            reviews = Some [[(''time'', Num 1704067200),
                             (''author_url'', Str ''https://maps.example/contrib/101''),
                             (''rating'', Num 5),
                             (''text'', Str ''Good'')]]\<rparr>\<rparr>"

definition failing_p1_api :: place_api where
  "failing_p1_api place_id =
     (if place_id = ''p1'' then Inl (ApiError ''timeout'') else one_review_api place_id)"

text \<open>A place table and a cleaned review table with the columns the aggregation reads.\<close>

definition sample_cafes :: dataframe where
  "sample_cafes =
     \<lparr>columns = [''place_id'', ''price_level'', ''rating'', ''total_ratings''],
      rows = [(\<lambda>_. Null)(''place_id'' := Str ''p1'', ''price_level'' := Num 2,
                            ''rating'' := Num 4, ''total_ratings'' := Num 120)]\<rparr>"

definition sample_stats_input :: dataframe where
  "sample_stats_input =
     \<lparr>columns = [''place_id'', ''rating'', ''text_length'', ''word_count''],
      rows = [(\<lambda>_. Null)(''place_id'' := Str ''p1'', ''rating'' := Num 5,
                            ''text_length'' := Num 4, ''word_count'' := Num 1)]\<rparr>"

text \<open>
  A neighborhood as \<open>CafeQuery.__init__\<close> builds it from the configuration (the details
  of the area plus \<open>neighborhood_name\<close> and \<open>region\<close>), and one that also has a
  \<open>name\<close> key. \<open>no_call\<close> stands for attribute calls that return an empty table.
\<close>

definition tiong_bahru :: pydict where
  "tiong_bahru =
     [(''center'', Nums [1.285, 103.831]), (''radius'', Num 800),
      (''neighborhood_name'', Str ''Tiong Bahru''), (''region'', Str ''Central'')]"

definition named_area :: pydict where
  "named_area = (''name'', Str ''Tiong Bahru'') # tiong_bahru"

definition no_call :: "string \<Rightarrow> pydict \<Rightarrow> error + dataframe" where
  "no_call attr neighborhood = Inr \<lparr>columns = [], rows = []\<rparr>"

text \<open>
  Providers of nearby-search pages, each page holding one place: one that always returns
  a token, one whose first four responses carry a token, one whose first response does.
\<close>

definition one_place_page :: "bool \<Rightarrow> response" where
  "one_place_page has_next =
     \<lparr>results = Some [[(''place_id'', Str ''p'')]],
      next_page_token = (if has_next then Some ''token'' else None)\<rparr>"

definition always_token_api :: places_api where
  "always_token_api n = Inr (one_place_page True)"

definition five_page_api :: places_api where
  "five_page_api n = Inr (one_place_page (n < 4))"

definition two_page_api :: places_api where
  "two_page_api n = Inr (one_place_page (n < 1))"

section \<open>Text cleaning is idempotent\<close>

lemma lower_char_idem: "lower_char (lower_char c) = lower_char c"
  by (auto simp: lower_char_def Let_def)

lemma isspace_lower_char: "isspace (lower_char c) = isspace c"
  by (auto simp: lower_char_def isspace_def Let_def)

lemma lower_idem: "lower (lower s) = lower s"
  by (simp add: lower_def lower_char_idem)

lemma lower_simps:
  "lower [] = []"
  "lower (w @ [c]) = lower w @ [lower_char c]"
  "lower (c # s) = lower_char c # lower s"
  "(lower w = []) = (w = [])"
  by (simp_all add: lower_def)

lemma split_from_lower: "split_from (lower w) (lower s) = map lower (split_from w s)"
proof (induction s arbitrary: w)
  case Nil
  then show ?case by (simp add: lower_simps)
next
  case (Cons c cs)
  show ?case
  proof (cases "isspace c")
    case True
    then show ?thesis
      using Cons.IH [of "[]"] by (simp add: isspace_lower_char lower_simps)
  next
    case False
    then show ?thesis
      using Cons.IH [of "w @ [c]"] by (simp add: isspace_lower_char lower_simps)
  qed
qed

lemma split_from_nospace:
  "list_all (\<lambda>c. \<not> isspace c) u \<Longrightarrow> split_from w (u @ s) = split_from (w @ u) s"
  by (induction u arbitrary: w) simp_all

lemma split_from_words:
  "list_all (\<lambda>c. \<not> isspace c) w \<Longrightarrow> list_all word (split_from w s)"
  by (induction s arbitrary: w) (simp_all add: word_def)

lemma split_from_join: "list_all word ws \<Longrightarrow> split_from [] (join ws) = ws"
proof (induction ws rule: join.induct)
  case 1
  then show ?case by simp
next
  case (2 w)
  then show ?case using split_from_nospace [of w "[]" "[]"] by (simp add: word_def)
next
  case (3 w v ws)
  then have "split_from [] (w @ CHR '' '' # join (v # ws)) =
      split_from w (CHR '' '' # join (v # ws))"
    using split_from_nospace [of w "[]"] by (simp add: word_def)
  also have "\<dots> = w # split_from [] (join (v # ws))"
    using 3 by (simp add: word_def isspace_def)
  finally show ?case using 3 by simp
qed

lemma lower_join: "lower (join ws) = join (map lower ws)"
  by (induction ws rule: join.induct) (simp_all add: lower_def lower_char_def)

lemma clean_review_text_again:
  "clean_review_text (Some (clean_review_text t)) = clean_review_text t"
proof (cases t)
  case None
  then show ?thesis by (simp add: clean_review_text_def)
next
  case (Some s)
  define ws where "ws = split (lower s)"
  have w: "list_all word ws" unfolding ws_def split_def by (rule split_from_words) simp
  have "ws = map lower (split s)"
    unfolding ws_def split_def using split_from_lower [of "[]" s] by (simp add: lower_def)
  then have "map lower ws = ws" by (simp add: lower_idem)
  then have l: "lower (join ws) = join ws" by (simp add: lower_join)
  have s: "split (join ws) = ws" unfolding split_def using w by (rule split_from_join)
  show ?thesis using Some l s by (simp add: clean_review_text_def ws_def [symmetric])
qed

text \<open>
  C8: cleaning a cleaned text changes nothing, and a missing or empty text cleans to the
  empty string.
\<close>

theorem clean_review_text_idempotent:
  "clean_review_text (Some (clean_review_text t)) = clean_review_text t
   \<and> clean_review_text None = []
   \<and> clean_review_text (Some []) = []"
  by (simp add: clean_review_text_again) (simp add: clean_review_text_def)

theorem clean_review_text_idempotent_witness:
  "clean_review_text (Some (clean_review_text (Some ''A  b''))) = ''a b''"
proof -
  have "clean_review_text (Some ''A  b'') = ''a b''" by code_simp
  then show ?thesis using clean_review_text_idempotent [of "Some ''A  b''"] by simp
qed

section \<open>The end-to-end cleaning scenario\<close>

lemma sample_text_clean: "clean_review_text (Some sample_text) = ''great coffee!! nice''"
  unfolding sample_text_def by code_simp

lemma sample_text_words: "split ''great coffee!! nice'' = [''great'', ''coffee!!'', ''nice'']"
  by code_simp

lemma sample_time: "to_datetime (Num 1704067200) = Inr (Stamp 1704067200)"
  by (simp add: to_datetime_def)

text \<open>
  C9: the sample text cleans to \<open>great coffee!! nice\<close>, of length 19 and with 3 words,
  and these are the values that \<open>clean_review_df\<close> writes for a review with that text.
\<close>

theorem sample_review_cleaned:
  "clean_review_text (Some sample_text) = ''great coffee!! nice''
   \<and> length (clean_review_text (Some sample_text)) = 19
   \<and> length (split (clean_review_text (Some sample_text))) = 3
   \<and> (case clean_review_df sample_reviews of
         Inl e \<Rightarrow> False
       | Inr df \<Rightarrow>
           map (\<lambda>r. (r ''text_clean'', r ''text_length'', r ''word_count'')) (rows df) =
             [(Str ''great coffee!! nice'', Num 19, Num 3)])"
  by (simp add: sample_text_clean sample_text_words clean_review_df_def sample_reviews_def
      drop_duplicates_def getcol_def setcol_def sample_time)

section \<open>Dropping duplicates keeps the first occurrence\<close>

lemma first_by_unseen: "r \<in> set (first_by key seen xs) \<Longrightarrow> key r \<notin> set seen"
proof (induction xs arbitrary: seen)
  case Nil
  then show ?case by simp
next
  case (Cons x xs)
  show ?case
  proof (cases "key x \<in> set seen")
    case True
    with Cons.prems have "r \<in> set (first_by key seen xs)" by simp
    then show ?thesis by (rule Cons.IH)
  next
    case False
    with Cons.prems have "r = x \<or> r \<in> set (first_by key (key x # seen) xs)" by simp
    then show ?thesis
    proof
      assume "r = x"
      with False show ?thesis by simp
    next
      assume "r \<in> set (first_by key (key x # seen) xs)"
      then have "key r \<notin> set (key x # seen)" by (rule Cons.IH)
      then show ?thesis by simp
    qed
  qed
qed

lemma first_by_subset: "set (first_by key seen xs) \<subseteq> set xs"
  by (induction xs arbitrary: seen) auto

lemma first_by_keys:
  "set (map key (first_by key seen xs)) = set (map key xs) - set seen"
  by (induction xs arbitrary: seen) auto

lemma first_by_distinct: "distinct (map key (first_by key seen xs))"
proof (induction xs arbitrary: seen)
  case Nil
  then show ?case by simp
next
  case (Cons x xs)
  have "key x \<notin> key ` set (first_by key (key x # seen) xs)"
  proof
    assume "key x \<in> key ` set (first_by key (key x # seen) xs)"
    then obtain r where r: "r \<in> set (first_by key (key x # seen) xs)" and k: "key x = key r"
      by auto
    from r have "key r \<notin> set (key x # seen)" by (rule first_by_unseen)
    with k show False by simp
  qed
  with Cons show ?case by simp
qed

lemma first_by_find:
  "r \<in> set (first_by key seen xs) \<Longrightarrow> find (\<lambda>x. key x = key r) xs = Some r"
proof (induction xs arbitrary: seen)
  case Nil
  then show ?case by simp
next
  case (Cons x xs)
  show ?case
  proof (cases "key x \<in> set seen")
    case True
    with Cons.prems have r: "r \<in> set (first_by key seen xs)" by simp
    then have "key r \<notin> set seen" by (rule first_by_unseen)
    with True have "key x \<noteq> key r" by auto
    with Cons.IH [OF r] show ?thesis by simp
  next
    case False
    with Cons.prems have "r = x \<or> r \<in> set (first_by key (key x # seen) xs)" by simp
    then show ?thesis
    proof
      assume "r = x"
      then show ?thesis by simp
    next
      assume r: "r \<in> set (first_by key (key x # seen) xs)"
      then have "key r \<notin> set (key x # seen)" by (rule first_by_unseen)
      then have "key x \<noteq> key r" by auto
      with Cons.IH [OF r] show ?thesis by simp
    qed
  qed
qed

text \<open>
  C3: when the concatenated table of the areas has a place_id column, the deduplicated
  table has each place_id of the input exactly once, and each of its rows is the first
  row of the concatenated table with that place_id, so with the tags of the area that
  found the place first.
\<close>

theorem final_cafes_first_occurrence:
  assumes "pd_concat dfs = Inr df" and "''place_id'' \<in> set (columns df)"
  shows "\<exists>out. final_cafes dfs = Inr out
           \<and> distinct (map (\<lambda>r. r ''place_id'') (rows out))
           \<and> set (map (\<lambda>r. r ''place_id'') (rows out)) = set (map (\<lambda>r. r ''place_id'') (rows df))
           \<and> (\<forall>r \<in> set (rows out). find (\<lambda>x. x ''place_id'' = r ''place_id'') (rows df) = Some r)"
proof -
  let ?out = "df\<lparr>rows := first_by (\<lambda>r. r ''place_id'') [] (rows df)\<rparr>"
  have "final_cafes dfs = Inr ?out"
    using assms by (simp add: final_cafes_def drop_duplicates_def)
  moreover have "distinct (map (\<lambda>r. r ''place_id'') (rows ?out))"
    using first_by_distinct [of "\<lambda>r. r ''place_id''" "[]" "rows df"] by simp
  moreover have "set (map (\<lambda>r. r ''place_id'') (rows ?out)) =
      set (map (\<lambda>r. r ''place_id'') (rows df))"
    using first_by_keys [of "\<lambda>r. r ''place_id''" "[]" "rows df"] by simp
  moreover have "\<forall>r \<in> set (rows ?out).
      find (\<lambda>x. x ''place_id'' = r ''place_id'') (rows df) = Some r"
    using first_by_find [of _ "\<lambda>r. r ''place_id''" "[]" "rows df"] by simp
  ultimately show ?thesis by blast
qed

lemma area_rows:
  "area_row p n g ''place_id'' = Str p"
  "area_row p n g ''neighborhood'' = Str n"
  "area_row p n g ''region'' = Str g"
  by (simp_all add: area_row_def)

lemma areas_concat:
  "pd_concat [area_a, area_b] =
     Inr \<lparr>columns = [''place_id'', ''neighborhood'', ''region''],
          rows = map (\<lambda>r c. if c \<in> set [''place_id'', ''neighborhood'', ''region''] then r c else Null)
                   [area_row ''p1'' ''Tiong Bahru'' ''Central'',
                    area_row ''p2'' ''Tiong Bahru'' ''Central'',
                    area_row ''p2'' ''Katong'' ''East'',
                    area_row ''p3'' ''Katong'' ''East'']\<rparr>"
  by (simp add: pd_concat_def area_a_def area_b_def)

lemma areas_final:
  "case final_cafes [area_a, area_b] of
     Inl e \<Rightarrow> False
   | Inr out \<Rightarrow>
       map (\<lambda>r. (r ''place_id'', r ''neighborhood'')) (rows out) =
         [(Str ''p1'', Str ''Tiong Bahru''), (Str ''p2'', Str ''Tiong Bahru''),
          (Str ''p3'', Str ''Katong'')]"
  by (simp add: final_cafes_def areas_concat drop_duplicates_def area_rows)

theorem final_cafes_first_occurrence_witness:
  "\<exists>df out. pd_concat [area_a, area_b] = Inr df \<and> ''place_id'' \<in> set (columns df)
      \<and> final_cafes [area_a, area_b] = Inr out
      \<and> length (rows df) = 4
      \<and> map (\<lambda>r. (r ''place_id'', r ''neighborhood'')) (rows out) =
           [(Str ''p1'', Str ''Tiong Bahru''), (Str ''p2'', Str ''Tiong Bahru''),
            (Str ''p3'', Str ''Katong'')]
      \<and> distinct (map (\<lambda>r. r ''place_id'') (rows out))"
proof -
  obtain df where df: "pd_concat [area_a, area_b] = Inr df"
    and c: "''place_id'' \<in> set (columns df)" and l: "length (rows df) = 4"
    using areas_concat by simp
  from final_cafes_first_occurrence [OF df c] obtain out
    where out: "final_cafes [area_a, area_b] = Inr out"
      and d: "distinct (map (\<lambda>r. r ''place_id'') (rows out))"
    by blast
  from out areas_final have "map (\<lambda>r. (r ''place_id'', r ''neighborhood'')) (rows out) =
      [(Str ''p1'', Str ''Tiong Bahru''), (Str ''p2'', Str ''Tiong Bahru''),
       (Str ''p3'', Str ''Katong'')]"
    by simp
  with df c l out d show ?thesis
    by (intro exI [of _ df] exI [of _ out] conjI)
qed

section \<open>Review cleaning keeps one review per place\<close>

lemma apply_clean_length: "apply_clean vs = Inr cs \<Longrightarrow> length cs = length vs"
  by (induction vs arbitrary: cs) (auto split: sum.splits val.splits)

lemma to_datetime_all_length: "to_datetime_all vs = Inr ts \<Longrightarrow> length ts = length vs"
  by (induction vs arbitrary: ts) (auto split: sum.splits)

lemma setcol_length: "length vs = length (rows d) \<Longrightarrow> length (rows (setcol d c vs)) = length (rows d)"
  by (simp add: setcol_def)

lemma setcol_related:
  assumes rel: "list_all2 R (rows d) base"
    and len: "length vs = length (rows d)"
    and upd: "\<And>r v b. R r b \<Longrightarrow> R (r(c := v)) b"
  shows "list_all2 R (rows (setcol d c vs)) base"
proof -
  have l: "length (rows d) = length base" using rel by (rule list_all2_lengthD)
  show ?thesis
    unfolding list_all2_conv_all_nth
  proof (intro conjI allI impI)
    show "length (rows (setcol d c vs)) = length base"
      using len l by (simp add: setcol_def)
  next
    fix i
    assume "i < length (rows (setcol d c vs))"
    then have i: "i < length (rows d)" using len by (simp add: setcol_def)
    then have "R (rows d ! i) (base ! i)" using rel by (simp add: list_all2_conv_all_nth)
    then have "R ((rows d ! i)(c := vs ! i)) (base ! i)" by (rule upd)
    then show "R (rows (setcol d c vs) ! i) (base ! i)"
      using i len by (simp add: setcol_def)
  qed
qed

lemma clean_review_df_rows:
  assumes "clean_review_df df = Inr out"
  shows "list_all2 (\<lambda>r r0. \<forall>c. c \<notin> set derived_columns \<longrightarrow> r c = r0 c)
           (rows out) (first_by (\<lambda>r. r ''place_id'') [] (rows df))"
proof -
  let ?R = "\<lambda>(r::row) (r0::row). \<forall>c. c \<notin> set derived_columns \<longrightarrow> r c = r0 c"
  let ?base = "first_by (\<lambda>r. r ''place_id'') [] (rows df)"
  from assms obtain d0 texts cleaned where
    d0: "drop_duplicates ''place_id'' df = Inr d0"
    and texts: "getcol d0 ''text'' = Inr texts"
    and cleaned: "apply_clean texts = Inr cleaned"
    by (auto simp: clean_review_df_def split: sum.splits)
  define d1 where "d1 = setcol d0 ''text_clean'' (map Str cleaned)"
  define d2 where "d2 = setcol d1 ''text_length'' (map (\<lambda>c. Num (of_nat (length c))) cleaned)"
  define d3 where "d3 = setcol d2 ''word_count'' (map (\<lambda>c. Num (of_nat (length (split c)))) cleaned)"
  from assms d0 texts cleaned obtain secs stamps where
    secs: "getcol d3 ''time'' = Inr secs"
    and stamps: "to_datetime_all secs = Inr stamps"
    by (auto simp: clean_review_df_def d1_def d2_def d3_def Let_def split: sum.splits)
  define d4 where "d4 = setcol d3 ''review_date'' stamps"
  define d5 where "d5 = setcol d4 ''year'' (map dt_year stamps)"
  define d6 where "d6 = setcol d5 ''month'' (map dt_month stamps)"
  have out: "out = setcol d6 ''day_of_week'' (map dt_dayofweek stamps)"
    using assms d0 texts cleaned secs stamps
    by (simp add: clean_review_df_def d1_def d2_def d3_def d4_def d5_def d6_def Let_def)
  have r0: "rows d0 = ?base"
    using d0 by (auto simp: drop_duplicates_def split: if_splits)
  have lc: "length cleaned = length (rows d0)"
    using texts apply_clean_length [OF cleaned]
    by (auto simp: getcol_def split: if_splits)
  have upd: "\<And>c r v b. c \<in> set derived_columns \<Longrightarrow> ?R r b \<Longrightarrow> ?R (r(c := v)) b"
    by auto
  have c1: "''text_clean'' \<in> set derived_columns" "''text_length'' \<in> set derived_columns"
    "''word_count'' \<in> set derived_columns" "''review_date'' \<in> set derived_columns"
    "''year'' \<in> set derived_columns" "''month'' \<in> set derived_columns"
    "''day_of_week'' \<in> set derived_columns"
    by (simp_all add: derived_columns_def)
  have l1: "length (rows d1) = length (rows d0)"
    unfolding d1_def using lc by (simp add: setcol_length)
  have l2: "length (rows d2) = length (rows d0)"
    unfolding d2_def using lc l1 by (simp add: setcol_length)
  have l3: "length (rows d3) = length (rows d0)"
    unfolding d3_def using lc l2 by (simp add: setcol_length)
  have ls: "length stamps = length (rows d3)"
    using secs to_datetime_all_length [OF stamps]
    by (auto simp: getcol_def split: if_splits)
  have l4: "length (rows d4) = length (rows d3)"
    unfolding d4_def using ls by (simp add: setcol_length)
  have l5: "length (rows d5) = length (rows d3)"
    unfolding d5_def using ls l4 by (simp add: setcol_length)
  have l6: "length (rows d6) = length (rows d3)"
    unfolding d6_def using ls l5 by (simp add: setcol_length)
  have "list_all2 ?R (rows d0) ?base"
    unfolding r0 by (simp add: list_all2_same)
  then have "list_all2 ?R (rows d1) ?base"
    unfolding d1_def using lc by (intro setcol_related upd c1) simp_all
  then have "list_all2 ?R (rows d2) ?base"
    unfolding d2_def using lc l1 by (intro setcol_related upd c1) simp_all
  then have "list_all2 ?R (rows d3) ?base"
    unfolding d3_def using lc l2 by (intro setcol_related upd c1) simp_all
  then have "list_all2 ?R (rows d4) ?base"
    unfolding d4_def using ls by (intro setcol_related upd c1) simp_all
  then have "list_all2 ?R (rows d5) ?base"
    unfolding d5_def using ls l4 by (intro setcol_related upd c1) simp_all
  then have "list_all2 ?R (rows d6) ?base"
    unfolding d6_def using ls l5 by (intro setcol_related upd c1) simp_all
  then show "list_all2 ?R (rows out) ?base"
    unfolding out using ls l6 by (intro setcol_related upd c1) simp_all
qed

text \<open>
  C6: when \<open>clean_review_df\<close> returns, its table has every place_id of the input exactly
  once, and each row agrees, outside the columns that the cleaning writes, with the
  first input row of its place: the later reviews of a place are gone, whoever wrote
  them.
\<close>

theorem clean_review_df_one_review_per_place:
  assumes "clean_review_df df = Inr out"
  shows "distinct (map (\<lambda>r. r ''place_id'') (rows out))
       \<and> set (map (\<lambda>r. r ''place_id'') (rows out)) = set (map (\<lambda>r. r ''place_id'') (rows df))
       \<and> (\<forall>r \<in> set (rows out). \<exists>r0.
             find (\<lambda>x. x ''place_id'' = r ''place_id'') (rows df) = Some r0
             \<and> (\<forall>c. c \<notin> set derived_columns \<longrightarrow> r c = r0 c))"
proof -
  let ?R = "\<lambda>(r::row) (r0::row). \<forall>c. c \<notin> set derived_columns \<longrightarrow> r c = r0 c"
  let ?base = "first_by (\<lambda>r. r ''place_id'') [] (rows df)"
  have rel: "list_all2 ?R (rows out) ?base" using assms by (rule clean_review_df_rows)
  have pid: "''place_id'' \<notin> set derived_columns" by (simp add: derived_columns_def)
  have "list_all2 (\<lambda>r r0. r ''place_id'' = r0 ''place_id'') (rows out) ?base"
    using rel pid by (auto elim: list_all2_mono)
  then have keys: "map (\<lambda>r. r ''place_id'') (rows out) = map (\<lambda>r. r ''place_id'') ?base"
    by (simp add: list_all2_conv_all_nth list_eq_iff_nth_eq)
  have 1: "distinct (map (\<lambda>r. r ''place_id'') (rows out))"
    unfolding keys by (rule first_by_distinct)
  have 2: "set (map (\<lambda>r. r ''place_id'') (rows out)) = set (map (\<lambda>r. r ''place_id'') (rows df))"
    unfolding keys using first_by_keys [of "\<lambda>r. r ''place_id''" "[]" "rows df"] by simp
  have 3: "\<forall>r \<in> set (rows out). \<exists>r0.
      find (\<lambda>x. x ''place_id'' = r ''place_id'') (rows df) = Some r0
      \<and> (\<forall>c. c \<notin> set derived_columns \<longrightarrow> r c = r0 c)"
  proof
    fix r
    assume "r \<in> set (rows out)"
    then obtain i where i: "i < length (rows out)" and r: "r = rows out ! i"
      by (auto simp: in_set_conv_nth)
    define r0 where "r0 = ?base ! i"
    have li: "i < length ?base" using i rel by (simp add: list_all2_lengthD)
    have R: "?R r r0" using rel i r by (simp add: r0_def list_all2_conv_all_nth)
    have "r0 \<in> set ?base" using li by (simp add: r0_def)
    then have "find (\<lambda>x. x ''place_id'' = r0 ''place_id'') (rows df) = Some r0"
      by (rule first_by_find)
    moreover have "r ''place_id'' = r0 ''place_id''" using R pid by blast
    ultimately show "\<exists>r0. find (\<lambda>x. x ''place_id'' = r ''place_id'') (rows df) = Some r0
        \<and> (\<forall>c. c \<notin> set derived_columns \<longrightarrow> r c = r0 c)"
      using R by auto
  qed
  from 1 2 3 show ?thesis by blast
qed

lemma two_reviews_cleaned_texts: "apply_clean [Str ''Good''] = Inr [''good'']"
  by code_simp

lemma two_reviews_cleaned:
  "\<exists>out. clean_review_df two_reviews = Inr out
     \<and> map (\<lambda>r. (r ''place_id'', r ''author_id'')) (rows out) = [(Str ''p1'', Str ''101'')]"
  by (simp add: clean_review_df_def two_reviews_def drop_duplicates_def getcol_def setcol_def
      two_reviews_cleaned_texts to_datetime_def)

theorem clean_review_df_one_review_per_place_witness:
  "\<exists>out. clean_review_df two_reviews = Inr out
     \<and> length (rows two_reviews) = 2
     \<and> map (\<lambda>r. (r ''place_id'', r ''author_id'')) (rows out) = [(Str ''p1'', Str ''101'')]
     \<and> distinct (map (\<lambda>r. r ''place_id'') (rows out))"
proof -
  from two_reviews_cleaned obtain out where out: "clean_review_df two_reviews = Inr out"
    and a: "map (\<lambda>r. (r ''place_id'', r ''author_id'')) (rows out) = [(Str ''p1'', Str ''101'')]"
    by (elim exE conjE)
  have d: "distinct (map (\<lambda>r. r ''place_id'') (rows out))"
    using clean_review_df_one_review_per_place [OF out] by blast
  have l: "length (rows two_reviews) = 2" by (simp add: two_reviews_def)
  from out l a d show ?thesis by (intro exI [of _ out] conjI)
qed

section \<open>Defects of the pipeline, evaluated\<close>

lemma one_review_collected:
  "collect_reviews one_review_api [''p1''] =
     Inr \<lparr>columns = review_columns,
          rows = [(\<lambda>_. Null)
                  (''place_id'' := Str ''p1'', ''place_name'' := Str ''Cafe'',
                   ''author_id'' := Str ''101'', ''rating'' := Num 5, ''text'' := Str ''Good'',
                   ''review_date'' := Day 19723, ''relative_time_description'' := Null)]\<rparr>"
  by (simp add: collect_reviews_def try_place_def one_review_api_def review_data_def
      truthy_def to_datetime_def last_segment_def Let_def)

text \<open>
  C7: the table that \<open>collect_reviews\<close> builds has a \<open>review_date\<close> and no \<open>time\<close>
  column; on it \<open>clean_review_df\<close> raises \<open>KeyError\<close> instead of deriving the year, the
  month and the day of the week.
\<close>

theorem clean_review_df_collected_raises:
  "\<exists>df. collect_reviews one_review_api [''p1''] = Inr df
     \<and> map (\<lambda>r. r ''review_date'') (rows df) = [Day 19723]
     \<and> clean_review_df df = Inl (KeyError ''time'')"
  by (simp add: one_review_collected clean_review_df_def drop_duplicates_def getcol_def
      setcol_def review_columns_def two_reviews_cleaned_texts)

text \<open>
  C2: when the request for the first place raises, \<open>place_name\<close> is still unassigned in
  the \<open>except\<close> block and \<open>UnboundLocalError\<close> leaves \<open>collect_reviews\<close>, so the reviews
  of the second place are lost; the same failure after a place that succeeded is
  skipped.
\<close>

theorem collect_reviews_first_failure_escapes:
  "collect_reviews failing_p1_api [''p1'', ''p2''] = Inl (UnboundLocalError ''place_name'')
   \<and> (\<exists>df. collect_reviews failing_p1_api [''p2'', ''p1''] = Inr df
          \<and> map (\<lambda>r. r ''place_id'') (rows df) = [Str ''p2''])"
  by (simp add: collect_reviews_def try_place_def failing_p1_api_def one_review_api_def
      review_data_def truthy_def to_datetime_def last_segment_def Let_def)

lemma qcut_source_raises: "qcut x [0, 0, 25, 5, 0, 75, 1] labels \<noteq> Inr tiers"
  by (simp add: qcut_def split: sum.splits)

lemma clean_cafe_df_raises: "clean_cafe_df df \<noteq> Inr out"
  by (simp add: clean_cafe_df_def qcut_source_raises split: sum.splits)

text \<open>
  C4: the quantiles passed to \<open>qcut\<close> are \<open>[0, 0, 25, 5, 0, 75, 1]\<close>, not the quartile
  cut points; \<open>qcut\<close> rejects them and \<open>clean_cafe_df\<close> raises \<open>ValueError\<close> without
  assigning a tier.
\<close>

theorem clean_cafe_df_sample_raises: "clean_cafe_df sample_cafes = Inl ValueError"
  by (simp add: clean_cafe_df_def sample_cafes_def drop_duplicates_def fillna_def getcol_def
      qcut_def)

lemma cafe_reviews_df_raises: "cafe_reviews_df cafes_df reviews_df \<noteq> Inr out"
  by (simp add: cafe_reviews_df_def df_count_def split: sum.splits)

text \<open>
  C5: the aggregated table is passed to \<open>count(2)\<close>; a table has no axis 2, so
  \<open>cafe_reviews_df\<close> raises \<open>ValueError\<close> and returns no merged table.
\<close>

theorem cafe_reviews_df_sample_raises:
  "cafe_reviews_df sample_cafes sample_stats_input = Inl ValueError"
  by (simp add: cafe_reviews_df_def groupby_agg_def sample_stats_input_def df_count_def)

section \<open>\<open>collect_all\<close> never returns\<close>

lemma collect_neighborhood_missing: "''collect_neighborhood'' \<notin> set CafeQuery_attributes"
  by (simp add: CafeQuery_attributes_def)

text \<open>
  C10, as stated, fails for a neighborhood without a \<open>name\<close> key, which is what the
  constructor builds: the message of the first iteration reads \<open>neighborhood['name']\<close>
  and raises \<open>KeyError\<close> before \<open>collect_neighborhood\<close> is looked up.
\<close>

theorem collect_all_key_error:
  "collect_all no_call [tiong_bahru] = Inl (KeyError ''name'')"
  by (simp add: collect_all_def dict_get_def tiong_bahru_def)

text \<open>
  C10, amended: for a non-empty list of neighborhoods \<open>collect_all\<close> returns no table.
  Its first iteration raises \<open>KeyError\<close> when the first neighborhood has no \<open>name\<close> key
  and \<open>AttributeError\<close> for the undefined \<open>collect_neighborhood\<close> otherwise.
\<close>

theorem collect_all_raises:
  assumes "neighborhoods \<noteq> []"
  shows "collect_all call neighborhoods =
           (case map_of (hd neighborhoods) ''name'' of
              None \<Rightarrow> Inl (KeyError ''name'')
            | Some v \<Rightarrow> Inl (AttributeError ''collect_neighborhood''))"
proof -
  from assms obtain nb rest where "neighborhoods = nb # rest" by (cases neighborhoods) auto
  then show ?thesis
    by (simp add: collect_all_def dict_get_def collect_neighborhood_missing split: option.splits)
qed

theorem collect_all_raises_witness:
  "[named_area, tiong_bahru] \<noteq> []
   \<and> collect_all no_call [named_area, tiong_bahru] = Inl (AttributeError ''collect_neighborhood'')"
  using collect_all_raises [of "[named_area, tiong_bahru]" no_call]
  by (simp add: named_area_def)

section \<open>Pagination\<close>

lemma always_token_never_returns:
  assumes ret: "page_loop api n resp all_cafes = Some r"
  shows "\<not> (api = always_token_api \<and> next_page_token resp \<noteq> None)"
proof (rule page_loop.raw_induct
    [where P = "\<lambda>api n resp all_cafes r.
       \<not> (api = always_token_api \<and> next_page_token resp \<noteq> None)", OF _ ret])
  fix f api n resp all_cafes r
  assume IH: "\<And>api n resp all_cafes r. f api n resp all_cafes = Some r \<Longrightarrow>
      \<not> (api = always_token_api \<and> next_page_token resp \<noteq> None)"
    and eq: "(case next_page_token resp of
        None \<Rightarrow> Some (n, Inr all_cafes)
      | Some token \<Rightarrow>
          (case api n of
             Inl e \<Rightarrow> Some (Suc n, Inl e)
           | Inr resp' \<Rightarrow>
               (case results resp' of
                  None \<Rightarrow> Some (Suc n, Inl (KeyError ''results''))
                | Some rs \<Rightarrow> f api (Suc n) resp' (all_cafes @ rs)))) = Some r"
  show "\<not> (api = always_token_api \<and> next_page_token resp \<noteq> None)"
  proof
    assume a: "api = always_token_api \<and> next_page_token resp \<noteq> None"
    with eq have "f always_token_api (Suc n) (one_place_page True)
        (all_cafes @ [[(''place_id'', Str ''p'')]]) = Some r"
      by (auto simp: always_token_api_def one_place_page_def)
    from IH [OF this] show False by (simp add: one_place_page_def)
  qed
qed

lemma always_token_diverges: "collect_pages always_token_api tiong_bahru = None"
proof (cases "collect_pages always_token_api tiong_bahru")
  case None
  then show ?thesis .
next
  case (Some r)
  then have "page_loop always_token_api 1 (one_place_page True) [[(''place_id'', Str ''p'')]] = Some r"
    by (simp add: collect_pages_def dict_get_def tiong_bahru_def always_token_api_def
        one_place_page_def)
  from always_token_never_returns [OF this] show ?thesis by (simp add: one_place_page_def)
qed

lemma five_pages_fetched:
  "map_option fst (collect_pages five_page_api tiong_bahru) = Some 5"
  by (simp add: collect_pages_def dict_get_def tiong_bahru_def five_page_api_def
      one_place_page_def page_loop.simps)

text \<open>
  C1, as stated, fails: the loop has no page cap. Against a provider whose first four
  responses carry a token it issues 5 requests, and against one that always returns a
  token it never ends.
\<close>

theorem collect_pages_no_cap:
  "map_option fst (collect_pages five_page_api tiong_bahru) = Some 5
   \<and> collect_pages always_token_api tiong_bahru = None"
  using five_pages_fetched always_token_diverges by simp

lemma page_loop_stops:
  assumes stop: "case api (n + j) of Inl e \<Rightarrow> True | Inr r \<Rightarrow> next_page_token r = None"
    and size: "\<forall>i r rs. api i = Inr r \<longrightarrow> results r = Some rs \<longrightarrow> length rs \<le> 20"
  shows "\<exists>m out. page_loop api n resp all_cafes = Some (m, out) \<and> m \<le> n + j + 1
           \<and> (case out of Inl e \<Rightarrow> True
               | Inr cafes \<Rightarrow> length cafes \<le> length all_cafes + 20 * (j + 1))"
  using stop
proof (induction j arbitrary: n resp all_cafes)
  case 0
  show ?case
  proof (cases "next_page_token resp")
    case None
    then show ?thesis by (simp add: page_loop.simps [of api n resp])
  next
    case (Some token)
    show ?thesis
    proof (cases "api n")
      case (Inl e)
      with Some show ?thesis by (simp add: page_loop.simps [of api n resp])
    next
      case (Inr r)
      with 0 have tok: "next_page_token r = None" by simp
      show ?thesis
      proof (cases "results r")
        case None
        with Some Inr show ?thesis by (simp add: page_loop.simps [of api n resp])
      next
        case (Some rs)
        have "length rs \<le> 20" using size Inr Some by blast
        with \<open>next_page_token resp = Some token\<close> Inr Some tok show ?thesis
          by (simp add: page_loop.simps [of api n resp] page_loop.simps [of api "Suc n" r])
      qed
    qed
  qed
next
  case (Suc j)
  show ?case
  proof (cases "next_page_token resp")
    case None
    then show ?thesis by (simp add: page_loop.simps [of api n resp])
  next
    case (Some token)
    show ?thesis
    proof (cases "api n")
      case (Inl e)
      with Some show ?thesis by (simp add: page_loop.simps [of api n resp])
    next
      case (Inr r)
      show ?thesis
      proof (cases "results r")
        case None
        with Some Inr show ?thesis by (simp add: page_loop.simps [of api n resp])
      next
        case (Some rs)
        have l: "length rs \<le> 20" using size Inr Some by blast
        from Suc.prems
        have "case api (Suc n + j) of Inl e \<Rightarrow> True | Inr r \<Rightarrow> next_page_token r = None"
          by simp
        from Suc.IH [OF this, of r "all_cafes @ rs"] obtain m out where
          ret: "page_loop api (Suc n) r (all_cafes @ rs) = Some (m, out)"
          and m: "m \<le> Suc n + j + 1"
          and len: "case out of Inl e \<Rightarrow> True
                    | Inr cafes \<Rightarrow> length cafes \<le> length (all_cafes @ rs) + 20 * (j + 1)"
          by blast
        have "page_loop api n resp all_cafes = Some (m, out)"
          using \<open>next_page_token resp = Some token\<close> Inr Some ret
          by (simp add: page_loop.simps [of api n resp])
        moreover have "m \<le> n + Suc j + 1" using m by simp
        moreover have "case out of Inl e \<Rightarrow> True
            | Inr cafes \<Rightarrow> length cafes \<le> length all_cafes + 20 * (Suc j + 1)"
          using len l by (cases out) auto
        ultimately show ?thesis by blast
      qed
    qed
  qed
qed

text \<open>
  C1, amended: when one of the first three responses of the provider carries no token
  (or its request fails), the collector issues at most 3 requests and its loop ends; with
  at most 20 results to a page it then holds at most 60 results. The bound comes from the
  provider: the code has no cap of its own.
\<close>

theorem collect_pages_bound:
  assumes k: "k < 3"
    and stop: "case api k of Inl e \<Rightarrow> True | Inr r \<Rightarrow> next_page_token r = None"
    and size: "\<forall>i r rs. api i = Inr r \<longrightarrow> results r = Some rs \<longrightarrow> length rs \<le> 20"
  shows "\<exists>n out. collect_pages api neighborhood = Some (n, out) \<and> n \<le> 3
           \<and> (case out of Inl e \<Rightarrow> True | Inr cafes \<Rightarrow> length cafes \<le> 60)"
proof (cases "dict_get neighborhood ''center''")
  case (Inl e)
  then show ?thesis by (simp add: collect_pages_def)
next
  case center: (Inr c)
  show ?thesis
  proof (cases "dict_get neighborhood ''radius''")
    case (Inl e)
    with center show ?thesis by (simp add: collect_pages_def)
  next
    case radius: (Inr rad)
    show ?thesis
    proof (cases "api 0")
      case (Inl e)
      with center radius show ?thesis by (simp add: collect_pages_def)
    next
      case first: (Inr resp)
      define start where "start = (case results resp of None \<Rightarrow> [] | Some rs \<Rightarrow> rs)"
      have s: "length start \<le> 20"
        using size first by (cases "results resp") (auto simp: start_def)
      have eq: "collect_pages api neighborhood = page_loop api 1 resp start"
        using center radius first by (simp add: collect_pages_def start_def)
      show ?thesis
      proof (cases k)
        case 0
        with stop first have "next_page_token resp = None" by simp
        then have "page_loop api 1 resp start = Some (1, Inr start)"
          by (subst page_loop.simps) simp
        with eq s show ?thesis by simp
      next
        case (Suc j)
        with stop
        have "case api (1 + j) of Inl e \<Rightarrow> True | Inr r \<Rightarrow> next_page_token r = None"
          by simp
        from page_loop_stops
            [where api = api and n = 1 and j = j and resp = resp and all_cafes = start,
             OF this size]
        obtain m out where
          ret: "page_loop api 1 resp start = Some (m, out)"
          and m: "m \<le> 1 + j + 1"
          and len: "case out of Inl e \<Rightarrow> True
                    | Inr cafes \<Rightarrow> length cafes \<le> length start + 20 * (j + 1)"
          by blast
        have "m \<le> 3" using m k Suc by simp
        moreover have "case out of Inl e \<Rightarrow> True | Inr cafes \<Rightarrow> length cafes \<le> 60"
          using len s k Suc by (cases out) auto
        ultimately show ?thesis using eq ret by simp
      qed
    qed
  qed
qed

lemma two_pages_fetched:
  "collect_pages two_page_api tiong_bahru =
     Some (2, Inr [[(''place_id'', Str ''p'')], [(''place_id'', Str ''p'')]])"
  by (simp add: collect_pages_def dict_get_def tiong_bahru_def two_page_api_def
      one_place_page_def page_loop.simps)

theorem collect_pages_bound_witness:
  "(1::nat) < 3
   \<and> (case two_page_api 1 of Inl e \<Rightarrow> True | Inr r \<Rightarrow> next_page_token r = None)
   \<and> (\<exists>n out. collect_pages two_page_api tiong_bahru = Some (n, out) \<and> n \<le> 3
         \<and> (case out of Inl e \<Rightarrow> True | Inr cafes \<Rightarrow> length cafes \<le> 60))
   \<and> map_option fst (collect_pages two_page_api tiong_bahru) = Some 2"
proof -
  have k: "(1::nat) < 3" by simp
  have stop: "case two_page_api 1 of Inl e \<Rightarrow> True | Inr r \<Rightarrow> next_page_token r = None"
    by (simp add: two_page_api_def one_place_page_def)
  have size: "\<forall>i r rs. two_page_api i = Inr r \<longrightarrow> results r = Some rs \<longrightarrow> length rs \<le> 20"
    by (auto simp: two_page_api_def one_place_page_def)
  from collect_pages_bound
      [where k = 1 and api = two_page_api and neighborhood = tiong_bahru, OF k stop size]
    k stop two_pages_fetched
  show ?thesis by simp
qed

end
